theory Spec2Isabelle
  imports Main "HOL-Library.Sublist"
begin

section \<open>Python values and failures\<close>

text \<open>
  The exceptions the modelled functions can raise on inputs of the documented types
  (a board that is a list of lists of ints, trails that are lists of lists of ints, an
  int turn counter, a string move).  A raise is the \<open>Inl\<close> branch of a sum.
\<close>

datatype py_error = IndexError | KeyError | ZeroDivisionError | ValueError

text \<open>\<open>xs[i]\<close>: a negative index counts from the end, anything out of range raises.\<close>

definition list_item :: "'a list \<Rightarrow> int \<Rightarrow> py_error + 'a" where
  "list_item xs i =
     (if 0 \<le> i \<and> i < int (length xs) then Inr (xs ! nat i)
      else if i < 0 \<and> - int (length xs) \<le> i then Inr (xs ! nat (int (length xs) + i))
      else Inl IndexError)"

text \<open>\<open>a % b\<close> on ints: floor modulus (as \<open>mod\<close> on \<open>int\<close>), raising on a zero divisor.\<close>

definition py_mod :: "int \<Rightarrow> int \<Rightarrow> py_error + int" where
  "py_mod a b = (if b = 0 then Inl ZeroDivisionError else Inr (a mod b))"

text \<open>\<open>d.get(key, default)\<close> on a key that may be absent.\<close>

definition get_or :: "'a option \<Rightarrow> 'a \<Rightarrow> 'a" where
  "get_or v dflt = (case v of None \<Rightarrow> dflt | Some x \<Rightarrow> x)"

section \<open>The state dictionary\<close>

text \<open>
  The keys of the state dictionary, as \<open>build_state_from_game\<close> writes them and
  \<open>choose_move\<close> documents them.  Every key may be absent (\<open>None\<close>); the record is
  extensible, so a state may carry further keys.  A trail is a list of \<open>[x, y]\<close> lists.
\<close>

record state =
  board :: "int list list option"
  agent1_trail :: "int list list option"
  agent2_trail :: "int list list option"
  agent1_length :: "int option"
  agent2_length :: "int option"
  agent1_alive :: "bool option"
  agent2_alive :: "bool option"
  agent1_boosts :: "int option"
  agent2_boosts :: "int option"
  turn_count :: "int option"
  player_number :: "int option"

section \<open>brain.py\<close>

definition DIRECTION_VECTORS :: "string \<Rightarrow> (int \<times> int) option" where
  "DIRECTION_VECTORS =
     map_of [(''UP'', (0, -1)), (''DOWN'', (0, 1)), (''LEFT'', (-1, 0)), (''RIGHT'', (1, 0))]"

text \<open>The trail \<open>_get_head_position\<close> selects: player 1 reads \<open>agent1_trail\<close>, every
  other player number reads \<open>agent2_trail\<close>; an absent key is the empty list.\<close>

definition requested_trail :: "'a state_scheme \<Rightarrow> int \<Rightarrow> int list list" where
  "requested_trail s player =
     (if player = 1 then get_or (agent1_trail s) [] else get_or (agent2_trail s) [])"

text \<open>The coordinates of a trail element are ints, on which \<open>int(...)\<close> is the
  identity; \<open>trail[-1]\<close>, \<open>head[0]\<close> and \<open>head[1]\<close> raise \<open>IndexError\<close> out of range.\<close>

definition get_head_position :: "'a state_scheme \<Rightarrow> int \<Rightarrow> py_error + (int \<times> int)" where
  "get_head_position s player =
     (let trail = requested_trail s player in
      if trail = [] then Inr (0, 0)
      else
        (case list_item trail (- 1) of
           Inl e \<Rightarrow> Inl e
         | Inr head \<Rightarrow>
             (case list_item head 0 of
                Inl e \<Rightarrow> Inl e
              | Inr x \<Rightarrow>
                  (case list_item head 1 of
                     Inl e \<Rightarrow> Inl e
                   | Inr y \<Rightarrow> Inr (x, y)))))"

definition get_board_size :: "int list list \<Rightarrow> py_error + (int \<times> int)" where
  "get_board_size brd =
     (if brd = [] then Inr (0, 0)
      else
        (case list_item brd 0 of
           Inl e \<Rightarrow> Inl e
         | Inr row0 \<Rightarrow>
             if row0 = [] then Inr (0, 0)
             else Inr (int (length row0), int (length brd))))"

text \<open>\<open>board[y][x]\<close>, the read in \<open>_is_cell_safe\<close>.\<close>

definition cell :: "int list list \<Rightarrow> int \<Rightarrow> int \<Rightarrow> py_error + int" where
  "cell brd x y =
     (case list_item brd y of
        Inl e \<Rightarrow> Inl e
      | Inr row \<Rightarrow> list_item row x)"

definition is_cell_safe :: "int list list \<Rightarrow> int \<Rightarrow> int \<Rightarrow> py_error + bool" where
  "is_cell_safe brd x y =
     (let height = int (length brd) in
      if height = 0 then Inr True
      else
        (case list_item brd 0 of
           Inl e \<Rightarrow> Inl e
         | Inr row0 \<Rightarrow>
             (let width = int (length row0) in
              case py_mod x width of
                Inl e \<Rightarrow> Inl e
              | Inr x' \<Rightarrow>
                  (case py_mod y height of
                     Inl e \<Rightarrow> Inl e
                   | Inr y' \<Rightarrow>
                       (case cell brd x' y' of
                          Inl e \<Rightarrow> Inl e
                        | Inr cell_value \<Rightarrow> Inr (cell_value = 0))))))"

text \<open>The candidate of one direction: the first three lines of the loop body of
  \<open>_choose_safe_direction\<close>.\<close>

definition candidate :: "int \<Rightarrow> int \<Rightarrow> int \<Rightarrow> int \<Rightarrow> string \<Rightarrow> py_error + (int \<times> int)" where
  "candidate width height head_x head_y direction_name =
     (case DIRECTION_VECTORS direction_name of
        None \<Rightarrow> Inl KeyError
      | Some (dx, dy) \<Rightarrow>
          (case py_mod (head_x + dx) width of
             Inl e \<Rightarrow> Inl e
           | Inr new_x \<Rightarrow>
               (case py_mod (head_y + dy) height of
                  Inl e \<Rightarrow> Inl e
                | Inr new_y \<Rightarrow> Inr (new_x, new_y))))"

text \<open>The loop of \<open>_choose_safe_direction\<close> over the preferred order, with the
  fallback after it.\<close>

fun first_safe ::
  "int list list \<Rightarrow> int \<Rightarrow> int \<Rightarrow> int \<Rightarrow> int \<Rightarrow> string list \<Rightarrow> py_error + string" where
  "first_safe brd width height head_x head_y [] = Inr ''RIGHT''"
| "first_safe brd width height head_x head_y (direction_name # rest) =
     (case candidate width height head_x head_y direction_name of
        Inl e \<Rightarrow> Inl e
      | Inr (new_x, new_y) \<Rightarrow>
          (case is_cell_safe brd new_x new_y of
             Inl e \<Rightarrow> Inl e
           | Inr safe \<Rightarrow>
               if safe then Inr direction_name
               else first_safe brd width height head_x head_y rest))"

definition choose_safe_direction ::
  "int list list \<Rightarrow> int \<Rightarrow> int \<Rightarrow> string list \<Rightarrow> py_error + string" where
  "choose_safe_direction brd head_x head_y preferred_order =
     (case get_board_size brd of
        Inl e \<Rightarrow> Inl e
      | Inr (width, height) \<Rightarrow>
          if width = 0 \<or> height = 0 then Inr ''RIGHT''
          else first_safe brd width height head_x head_y preferred_order)"

text \<open>The preference order \<open>choose_move\<close> builds from the turn counter.\<close>

definition preferred_order :: "int \<Rightarrow> string list" where
  "preferred_order turn =
     (let pattern = turn mod 4 in
      if pattern = 0 then [''RIGHT'', ''DOWN'', ''UP'', ''LEFT'']
      else if pattern = 1 then [''DOWN'', ''LEFT'', ''RIGHT'', ''UP'']
      else if pattern = 2 then [''LEFT'', ''UP'', ''DOWN'', ''RIGHT'']
      else [''UP'', ''RIGHT'', ''LEFT'', ''DOWN''])"

definition choose_move :: "'a state_scheme \<Rightarrow> int \<Rightarrow> int \<Rightarrow> py_error + string" where
  "choose_move s boosts_remaining player =
     (let brd = get_or (board s) [] in
      if brd = [] then Inr ''RIGHT''
      else
        (case get_head_position s player of
           Inl e \<Rightarrow> Inl e
         | Inr (head_x, head_y) \<Rightarrow>
             (let turn = get_or (turn_count s) 0 in
              choose_safe_direction brd head_x head_y (preferred_order turn))))"

text \<open>The four direction names, the keys of \<open>DIRECTION_VECTORS\<close>.\<close>

definition all_directions :: "string list" where
  "all_directions = [''UP'', ''DOWN'', ''LEFT'', ''RIGHT'']"

section \<open>visual_tron.py: parsing a move string\<close>

text \<open>
  A Python \<open>str\<close> is modelled as the list of its Unicode code points; \<open>codes\<close> turns a
  literal of ASCII characters into that list.
\<close>

definition codes :: "string \<Rightarrow> nat list" where
  "codes s = map of_char s"

text \<open>
  \<open>str.strip()\<close> removes, at both ends, the code points for which \<open>str.isspace()\<close>
  holds: the ASCII controls 0x09 to 0x0D and 0x1C to 0x1F, the space, NEXT LINE, NO-BREAK
  SPACE, OGHAM SPACE MARK, the spaces 0x2000 to 0x200A, the line and paragraph separators,
  NARROW NO-BREAK SPACE, MEDIUM MATHEMATICAL SPACE and IDEOGRAPHIC SPACE.
\<close>

definition whitespace_codes :: "nat list" where
  "whitespace_codes =
     [0x9, 0xA, 0xB, 0xC, 0xD, 0x1C, 0x1D, 0x1E, 0x1F, 0x20, 0x85, 0xA0, 0x1680,
      0x2000, 0x2001, 0x2002, 0x2003, 0x2004, 0x2005, 0x2006, 0x2007, 0x2008, 0x2009, 0x200A,
      0x2028, 0x2029, 0x202F, 0x205F, 0x3000]"

definition isspace :: "nat \<Rightarrow> bool" where
  "isspace c = (c \<in> set whitespace_codes)"

definition strip :: "nat list \<Rightarrow> nat list" where
  "strip s = rev (dropWhile isspace (rev (dropWhile isspace s)))"

text \<open>
  \<open>str.upper()\<close> replaces every code point by its full uppercase mapping, one code
  point at a time and without regard to context.  The mappings are those of the Unicode
  Character Database 14.0, the version of CPython 3.11.  An entry \<open>(first, last, step,
  image)\<close> of \<open>simple_upper_ranges\<close> maps the code points \<open>first\<close>, \<open>first + step\<close>,
  ... up to \<open>last\<close> onto \<open>image\<close>, \<open>image + step\<close>, ...; \<open>special_upper\<close> holds the
  code points whose uppercase form has more than one code point.  A code point in neither
  table is its own uppercase form.
\<close>

definition simple_upper_ranges :: "(nat \<times> nat \<times> nat \<times> nat) list" where
  "simple_upper_ranges =
     [
      (0xB5, 0xB5, 1, 0x39C), (0xE0, 0xF6, 1, 0xC0), (0xF8, 0xFE, 1, 0xD8),
      (0xFF, 0xFF, 1, 0x178), (0x101, 0x12F, 2, 0x100), (0x131, 0x131, 1, 0x49),
      (0x133, 0x137, 2, 0x132), (0x13A, 0x148, 2, 0x139), (0x14B, 0x177, 2, 0x14A),
      (0x17A, 0x17E, 2, 0x179), (0x17F, 0x17F, 1, 0x53), (0x180, 0x180, 1, 0x243),
      (0x183, 0x185, 2, 0x182), (0x188, 0x188, 1, 0x187), (0x18C, 0x18C, 1, 0x18B),
      (0x192, 0x192, 1, 0x191), (0x195, 0x195, 1, 0x1F6), (0x199, 0x199, 1, 0x198),
      (0x19A, 0x19A, 1, 0x23D), (0x19E, 0x19E, 1, 0x220), (0x1A1, 0x1A5, 2, 0x1A0),
      (0x1A8, 0x1A8, 1, 0x1A7), (0x1AD, 0x1AD, 1, 0x1AC), (0x1B0, 0x1B0, 1, 0x1AF),
      (0x1B4, 0x1B6, 2, 0x1B3), (0x1B9, 0x1B9, 1, 0x1B8), (0x1BD, 0x1BD, 1, 0x1BC),
      (0x1BF, 0x1BF, 1, 0x1F7), (0x1C5, 0x1C5, 1, 0x1C4), (0x1C6, 0x1C6, 1, 0x1C4),
      (0x1C8, 0x1C8, 1, 0x1C7), (0x1C9, 0x1C9, 1, 0x1C7), (0x1CB, 0x1CB, 1, 0x1CA),
      (0x1CC, 0x1CC, 1, 0x1CA), (0x1CE, 0x1DC, 2, 0x1CD), (0x1DD, 0x1DD, 1, 0x18E),
      (0x1DF, 0x1EF, 2, 0x1DE), (0x1F2, 0x1F2, 1, 0x1F1), (0x1F3, 0x1F3, 1, 0x1F1),
      (0x1F5, 0x1F5, 1, 0x1F4), (0x1F9, 0x21F, 2, 0x1F8), (0x223, 0x233, 2, 0x222),
      (0x23C, 0x23C, 1, 0x23B), (0x23F, 0x240, 1, 0x2C7E), (0x242, 0x242, 1, 0x241),
      (0x247, 0x24F, 2, 0x246), (0x250, 0x250, 1, 0x2C6F), (0x251, 0x251, 1, 0x2C6D),
      (0x252, 0x252, 1, 0x2C70), (0x253, 0x253, 1, 0x181), (0x254, 0x254, 1, 0x186),
      (0x256, 0x257, 1, 0x189), (0x259, 0x259, 1, 0x18F), (0x25B, 0x25B, 1, 0x190),
      (0x25C, 0x25C, 1, 0xA7AB), (0x260, 0x260, 1, 0x193), (0x261, 0x261, 1, 0xA7AC),
      (0x263, 0x263, 1, 0x194), (0x265, 0x265, 1, 0xA78D), (0x266, 0x266, 1, 0xA7AA),
      (0x268, 0x268, 1, 0x197), (0x269, 0x269, 1, 0x196), (0x26A, 0x26A, 1, 0xA7AE),
      (0x26B, 0x26B, 1, 0x2C62), (0x26C, 0x26C, 1, 0xA7AD), (0x26F, 0x26F, 1, 0x19C),
      (0x271, 0x271, 1, 0x2C6E), (0x272, 0x272, 1, 0x19D), (0x275, 0x275, 1, 0x19F),
      (0x27D, 0x27D, 1, 0x2C64), (0x280, 0x280, 1, 0x1A6), (0x282, 0x282, 1, 0xA7C5),
      (0x283, 0x283, 1, 0x1A9), (0x287, 0x287, 1, 0xA7B1), (0x288, 0x288, 1, 0x1AE),
      (0x289, 0x289, 1, 0x244), (0x28A, 0x28B, 1, 0x1B1), (0x28C, 0x28C, 1, 0x245),
      (0x292, 0x292, 1, 0x1B7), (0x29D, 0x29D, 1, 0xA7B2), (0x29E, 0x29E, 1, 0xA7B0),
      (0x345, 0x345, 1, 0x399), (0x371, 0x373, 2, 0x370), (0x377, 0x377, 1, 0x376),
      (0x37B, 0x37D, 1, 0x3FD), (0x3AC, 0x3AC, 1, 0x386), (0x3AD, 0x3AF, 1, 0x388),
      (0x3B1, 0x3C1, 1, 0x391), (0x3C2, 0x3C2, 1, 0x3A3), (0x3C3, 0x3CB, 1, 0x3A3),
      (0x3CC, 0x3CC, 1, 0x38C), (0x3CD, 0x3CE, 1, 0x38E), (0x3D0, 0x3D0, 1, 0x392),
      (0x3D1, 0x3D1, 1, 0x398), (0x3D5, 0x3D5, 1, 0x3A6), (0x3D6, 0x3D6, 1, 0x3A0),
      (0x3D7, 0x3D7, 1, 0x3CF), (0x3D9, 0x3EF, 2, 0x3D8), (0x3F0, 0x3F0, 1, 0x39A),
      (0x3F1, 0x3F1, 1, 0x3A1), (0x3F2, 0x3F2, 1, 0x3F9), (0x3F3, 0x3F3, 1, 0x37F),
      (0x3F5, 0x3F5, 1, 0x395), (0x3F8, 0x3F8, 1, 0x3F7), (0x3FB, 0x3FB, 1, 0x3FA),
      (0x430, 0x44F, 1, 0x410), (0x450, 0x45F, 1, 0x400), (0x461, 0x481, 2, 0x460),
      (0x48B, 0x4BF, 2, 0x48A), (0x4C2, 0x4CE, 2, 0x4C1), (0x4CF, 0x4CF, 1, 0x4C0),
      (0x4D1, 0x52F, 2, 0x4D0), (0x561, 0x586, 1, 0x531), (0x10D0, 0x10FA, 1, 0x1C90),
      (0x10FD, 0x10FF, 1, 0x1CBD), (0x13F8, 0x13FD, 1, 0x13F0), (0x1C80, 0x1C80, 1, 0x412),
      (0x1C81, 0x1C81, 1, 0x414), (0x1C82, 0x1C82, 1, 0x41E), (0x1C83, 0x1C84, 1, 0x421),
      (0x1C85, 0x1C85, 1, 0x422), (0x1C86, 0x1C86, 1, 0x42A), (0x1C87, 0x1C87, 1, 0x462),
      (0x1C88, 0x1C88, 1, 0xA64A), (0x1D79, 0x1D79, 1, 0xA77D), (0x1D7D, 0x1D7D, 1, 0x2C63),
      (0x1D8E, 0x1D8E, 1, 0xA7C6), (0x1E01, 0x1E95, 2, 0x1E00), (0x1E9B, 0x1E9B, 1, 0x1E60),
      (0x1EA1, 0x1EFF, 2, 0x1EA0), (0x1F00, 0x1F07, 1, 0x1F08), (0x1F10, 0x1F15, 1, 0x1F18),
      (0x1F20, 0x1F27, 1, 0x1F28), (0x1F30, 0x1F37, 1, 0x1F38), (0x1F40, 0x1F45, 1, 0x1F48),
      (0x1F51, 0x1F57, 2, 0x1F59), (0x1F60, 0x1F67, 1, 0x1F68), (0x1F70, 0x1F71, 1, 0x1FBA),
      (0x1F72, 0x1F75, 1, 0x1FC8), (0x1F76, 0x1F77, 1, 0x1FDA), (0x1F78, 0x1F79, 1, 0x1FF8),
      (0x1F7A, 0x1F7B, 1, 0x1FEA), (0x1F7C, 0x1F7D, 1, 0x1FFA), (0x1FB0, 0x1FB1, 1, 0x1FB8),
      (0x1FBE, 0x1FBE, 1, 0x399), (0x1FD0, 0x1FD1, 1, 0x1FD8), (0x1FE0, 0x1FE1, 1, 0x1FE8),
      (0x1FE5, 0x1FE5, 1, 0x1FEC), (0x214E, 0x214E, 1, 0x2132), (0x2170, 0x217F, 1, 0x2160),
      (0x2184, 0x2184, 1, 0x2183), (0x24D0, 0x24E9, 1, 0x24B6), (0x2C30, 0x2C5F, 1, 0x2C00),
      (0x2C61, 0x2C61, 1, 0x2C60), (0x2C65, 0x2C65, 1, 0x23A), (0x2C66, 0x2C66, 1, 0x23E),
      (0x2C68, 0x2C6C, 2, 0x2C67), (0x2C73, 0x2C73, 1, 0x2C72), (0x2C76, 0x2C76, 1, 0x2C75),
      (0x2C81, 0x2CE3, 2, 0x2C80), (0x2CEC, 0x2CEE, 2, 0x2CEB), (0x2CF3, 0x2CF3, 1, 0x2CF2),
      (0x2D00, 0x2D25, 1, 0x10A0), (0x2D27, 0x2D27, 1, 0x10C7), (0x2D2D, 0x2D2D, 1, 0x10CD),
      (0xA641, 0xA66D, 2, 0xA640), (0xA681, 0xA69B, 2, 0xA680), (0xA723, 0xA72F, 2, 0xA722),
      (0xA733, 0xA76F, 2, 0xA732), (0xA77A, 0xA77C, 2, 0xA779), (0xA77F, 0xA787, 2, 0xA77E),
      (0xA78C, 0xA78C, 1, 0xA78B), (0xA791, 0xA793, 2, 0xA790), (0xA794, 0xA794, 1, 0xA7C4),
      (0xA797, 0xA7A9, 2, 0xA796), (0xA7B5, 0xA7C3, 2, 0xA7B4), (0xA7C8, 0xA7CA, 2, 0xA7C7),
      (0xA7D1, 0xA7D1, 1, 0xA7D0), (0xA7D7, 0xA7D9, 2, 0xA7D6), (0xA7F6, 0xA7F6, 1, 0xA7F5),
      (0xAB53, 0xAB53, 1, 0xA7B3), (0xAB70, 0xABBF, 1, 0x13A0), (0xFF41, 0xFF5A, 1, 0xFF21),
      (0x10428, 0x1044F, 1, 0x10400), (0x104D8, 0x104FB, 1, 0x104B0),
      (0x10597, 0x105A1, 1, 0x10570), (0x105A3, 0x105B1, 1, 0x1057C),
      (0x105B3, 0x105B9, 1, 0x1058C), (0x105BB, 0x105BC, 1, 0x10594),
      (0x10CC0, 0x10CF2, 1, 0x10C80), (0x118C0, 0x118DF, 1, 0x118A0),
      (0x16E60, 0x16E7F, 1, 0x16E40), (0x1E922, 0x1E943, 1, 0x1E900)
     ]"

definition special_upper :: "(nat \<times> nat list) list" where
  "special_upper =
     [
      (0xDF, [0x53, 0x53]), (0x149, [0x2BC, 0x4E]), (0x1F0, [0x4A, 0x30C]),
      (0x390, [0x399, 0x308, 0x301]), (0x3B0, [0x3A5, 0x308, 0x301]), (0x587, [0x535, 0x552]),
      (0x1E96, [0x48, 0x331]), (0x1E97, [0x54, 0x308]), (0x1E98, [0x57, 0x30A]),
      (0x1E99, [0x59, 0x30A]), (0x1E9A, [0x41, 0x2BE]), (0x1F50, [0x3A5, 0x313]),
      (0x1F52, [0x3A5, 0x313, 0x300]), (0x1F54, [0x3A5, 0x313, 0x301]),
      (0x1F56, [0x3A5, 0x313, 0x342]), (0x1F80, [0x1F08, 0x399]), (0x1F81, [0x1F09, 0x399]),
      (0x1F82, [0x1F0A, 0x399]), (0x1F83, [0x1F0B, 0x399]), (0x1F84, [0x1F0C, 0x399]),
      (0x1F85, [0x1F0D, 0x399]), (0x1F86, [0x1F0E, 0x399]), (0x1F87, [0x1F0F, 0x399]),
      (0x1F88, [0x1F08, 0x399]), (0x1F89, [0x1F09, 0x399]), (0x1F8A, [0x1F0A, 0x399]),
      (0x1F8B, [0x1F0B, 0x399]), (0x1F8C, [0x1F0C, 0x399]), (0x1F8D, [0x1F0D, 0x399]),
      (0x1F8E, [0x1F0E, 0x399]), (0x1F8F, [0x1F0F, 0x399]), (0x1F90, [0x1F28, 0x399]),
      (0x1F91, [0x1F29, 0x399]), (0x1F92, [0x1F2A, 0x399]), (0x1F93, [0x1F2B, 0x399]),
      (0x1F94, [0x1F2C, 0x399]), (0x1F95, [0x1F2D, 0x399]), (0x1F96, [0x1F2E, 0x399]),
      (0x1F97, [0x1F2F, 0x399]), (0x1F98, [0x1F28, 0x399]), (0x1F99, [0x1F29, 0x399]),
      (0x1F9A, [0x1F2A, 0x399]), (0x1F9B, [0x1F2B, 0x399]), (0x1F9C, [0x1F2C, 0x399]),
      (0x1F9D, [0x1F2D, 0x399]), (0x1F9E, [0x1F2E, 0x399]), (0x1F9F, [0x1F2F, 0x399]),
      (0x1FA0, [0x1F68, 0x399]), (0x1FA1, [0x1F69, 0x399]), (0x1FA2, [0x1F6A, 0x399]),
      (0x1FA3, [0x1F6B, 0x399]), (0x1FA4, [0x1F6C, 0x399]), (0x1FA5, [0x1F6D, 0x399]),
      (0x1FA6, [0x1F6E, 0x399]), (0x1FA7, [0x1F6F, 0x399]), (0x1FA8, [0x1F68, 0x399]),
      (0x1FA9, [0x1F69, 0x399]), (0x1FAA, [0x1F6A, 0x399]), (0x1FAB, [0x1F6B, 0x399]),
      (0x1FAC, [0x1F6C, 0x399]), (0x1FAD, [0x1F6D, 0x399]), (0x1FAE, [0x1F6E, 0x399]),
      (0x1FAF, [0x1F6F, 0x399]), (0x1FB2, [0x1FBA, 0x399]), (0x1FB3, [0x391, 0x399]),
      (0x1FB4, [0x386, 0x399]), (0x1FB6, [0x391, 0x342]), (0x1FB7, [0x391, 0x342, 0x399]),
      (0x1FBC, [0x391, 0x399]), (0x1FC2, [0x1FCA, 0x399]), (0x1FC3, [0x397, 0x399]),
      (0x1FC4, [0x389, 0x399]), (0x1FC6, [0x397, 0x342]), (0x1FC7, [0x397, 0x342, 0x399]),
      (0x1FCC, [0x397, 0x399]), (0x1FD2, [0x399, 0x308, 0x300]),
      (0x1FD3, [0x399, 0x308, 0x301]), (0x1FD6, [0x399, 0x342]),
      (0x1FD7, [0x399, 0x308, 0x342]), (0x1FE2, [0x3A5, 0x308, 0x300]),
      (0x1FE3, [0x3A5, 0x308, 0x301]), (0x1FE4, [0x3A1, 0x313]), (0x1FE6, [0x3A5, 0x342]),
      (0x1FE7, [0x3A5, 0x308, 0x342]), (0x1FF2, [0x1FFA, 0x399]), (0x1FF3, [0x3A9, 0x399]),
      (0x1FF4, [0x38F, 0x399]), (0x1FF6, [0x3A9, 0x342]), (0x1FF7, [0x3A9, 0x342, 0x399]),
      (0x1FFC, [0x3A9, 0x399]), (0xFB00, [0x46, 0x46]), (0xFB01, [0x46, 0x49]),
      (0xFB02, [0x46, 0x4C]), (0xFB03, [0x46, 0x46, 0x49]), (0xFB04, [0x46, 0x46, 0x4C]),
      (0xFB05, [0x53, 0x54]), (0xFB06, [0x53, 0x54]), (0xFB13, [0x544, 0x546]),
      (0xFB14, [0x544, 0x535]), (0xFB15, [0x544, 0x53B]), (0xFB16, [0x54E, 0x546]),
      (0xFB17, [0x544, 0x53D])
     ]"

fun range_upper :: "(nat \<times> nat \<times> nat \<times> nat) list \<Rightarrow> nat \<Rightarrow> nat" where
  "range_upper [] c = c"
| "range_upper ((lo, hi, step, upper_lo) # ranges) c =
     (if lo \<le> c \<and> c \<le> hi \<and> (c - lo) mod step = 0 then upper_lo + (c - lo)
      else range_upper ranges c)"

text \<open>Below 0x80 only \<open>a\<close> to \<open>z\<close> change.\<close>

definition ascii_upper :: "nat \<Rightarrow> nat" where
  "ascii_upper c = (if 0x61 \<le> c \<and> c \<le> 0x7A then c - 0x20 else c)"

definition upper_char :: "nat \<Rightarrow> nat list" where
  "upper_char c =
     (if c < 0x80 then [ascii_upper c]
      else
        (case map_of special_upper c of
           Some us \<Rightarrow> us
         | None \<Rightarrow> [range_upper simple_upper_ranges c]))"

definition upper :: "nat list \<Rightarrow> nat list" where
  "upper s = concat (map upper_char s)"

text \<open>\<open>sub in s\<close> on strings: \<open>sub\<close> occurs in \<open>s\<close> as a contiguous run.\<close>

fun contains :: "'a list \<Rightarrow> 'a list \<Rightarrow> bool" where
  "contains sub [] = (sub = [])"
| "contains sub (c # cs) = (prefix sub (c # cs) \<or> contains sub cs)"

text \<open>\<open>s.split(sep, 1)\<close> for a separator of one character: two parts around the first
  separator, or the string alone when it has none.\<close>

definition split_once :: "'a \<Rightarrow> 'a list \<Rightarrow> 'a list list" where
  "split_once sep s =
     (if sep \<in> set s
      then [takeWhile (\<lambda>c. c \<noteq> sep) s, tl (dropWhile (\<lambda>c. c \<noteq> sep) s)]
      else [s])"

text \<open>
  Modelled from the spec: the enumeration \<open>Direction\<close> of the module
  \<open>case_closed_game\<close>, which \<open>visual_tron.py\<close> imports and which is not among the
  sources.  The spec names its four members, \<open>UP\<close>, \<open>DOWN\<close>, \<open>LEFT\<close> and \<open>RIGHT\<close>;
  \<open>Direction_member\<close> is the lookup by name \<open>Direction[name]\<close>, where \<open>None\<close> stands
  for the \<open>KeyError\<close> the function catches.
\<close>

datatype Direction = UP | DOWN | LEFT | RIGHT

definition Direction_member :: "nat list \<Rightarrow> Direction option" where
  "Direction_member =
     map_of [(codes ''UP'', UP), (codes ''DOWN'', DOWN), (codes ''LEFT'', LEFT),
             (codes ''RIGHT'', RIGHT)]"

text \<open>The \<open>if\<close>/\<open>else\<close> of \<open>move_str_to_direction_and_boost\<close> on the normalised
  string: the direction part and the boost flag.  Unpacking a split of fewer than two
  parts would raise \<open>ValueError\<close>.\<close>

definition direction_part :: "nat list \<Rightarrow> py_error + (nat list \<times> bool)" where
  "direction_part move_str =
     (if contains (codes '':BOOST'') move_str
      then
        (case split_once (of_char CHR '':'') move_str of
           [dir_part, rest] \<Rightarrow> Inr (dir_part, True)
         | _ \<Rightarrow> Inl ValueError)
      else Inr (move_str, False))"

definition move_str_to_direction_and_boost :: "nat list \<Rightarrow> py_error + (Direction \<times> bool)" where
  "move_str_to_direction_and_boost move_str =
     (case direction_part (upper (strip move_str)) of
        Inl e \<Rightarrow> Inl e
      | Inr (dir_part, use_boost) \<Rightarrow>
          (case Direction_member dir_part of
             Some direction_enum \<Rightarrow> Inr (direction_enum, use_boost)
           | None \<Rightarrow> Inr (RIGHT, False)))"

section \<open>Notions the properties are stated with\<close>

text \<open>No row of the board is shorter than its first row (a rectangular board is one
  such board; so is the empty board).\<close>

definition rows_cover_first :: "int list list \<Rightarrow> bool" where
  "rows_cover_first brd = list_all (\<lambda>row. length (hd brd) \<le> length row) brd"

text \<open>The head of a trail can be read: the trail is empty, or its last element has at
  least the two coordinates \<open>head[0]\<close> and \<open>head[1]\<close>.\<close>

definition head_readable :: "int list list \<Rightarrow> bool" where
  "head_readable trail = (trail = [] \<or> 2 \<le> length (last trail))"

text \<open>The toroidally adjacent cell of \<open>(x, y)\<close> in a direction, on a board of width
  \<open>w\<close> and height \<open>h\<close> (x to the right, y down), written out from the words of the
  specification, and the marker the board holds there.\<close>

definition adjacent :: "int \<Rightarrow> int \<Rightarrow> int \<Rightarrow> int \<Rightarrow> string \<Rightarrow> int \<times> int" where
  "adjacent w h x y d =
     (if d = ''UP'' then (x mod w, (y - 1) mod h)
      else if d = ''DOWN'' then (x mod w, (y + 1) mod h)
      else if d = ''LEFT'' then ((x - 1) mod w, y mod h)
      else ((x + 1) mod w, y mod h))"

definition adjacent_marker :: "int list list \<Rightarrow> int \<Rightarrow> int \<Rightarrow> string \<Rightarrow> py_error + int" where
  "adjacent_marker brd x y d =
     (case adjacent (int (length (hd brd))) (int (length brd)) x y d of
        (ax, ay) \<Rightarrow> cell brd ax ay)"

text \<open>A state with the board, both trails and the turn counter present and every other
  key absent, for the concrete instances below.\<close>

definition snapshot :: "int list list \<Rightarrow> int list list \<Rightarrow> int list list \<Rightarrow> int \<Rightarrow> state" where
  "snapshot brd trail1 trail2 turn =
     \<lparr>board = Some brd, agent1_trail = Some trail1, agent2_trail = Some trail2,
      agent1_length = None, agent2_length = None, agent1_alive = None, agent2_alive = None,
      agent1_boosts = None, agent2_boosts = None, turn_count = Some turn,
      player_number = None\<rparr>"

section \<open>Helper facts\<close>

lemmas brain_defs =
  choose_move_def snapshot_def get_or_def get_head_position_def requested_trail_def
  list_item_def choose_safe_direction_def get_board_size_def preferred_order_def
  candidate_def DIRECTION_VECTORS_def py_mod_def is_cell_safe_def cell_def

lemma list_item_nonneg:
  "0 \<le> i \<Longrightarrow> i < int (length xs) \<Longrightarrow> list_item xs i = Inr (xs ! nat i)"
  by (simp add: list_item_def)

lemma list_item_last: "xs \<noteq> [] \<Longrightarrow> list_item xs (- 1) = Inr (last xs)"
  by (cases xs rule: rev_cases) (auto simp: list_item_def nth_append)

lemma get_head_position_empty:
  "requested_trail s player = [] \<Longrightarrow> get_head_position s player = Inr (0, 0)"
  by (simp add: get_head_position_def)

lemma get_head_position_last:
  assumes "requested_trail s player \<noteq> []" "2 \<le> length (last (requested_trail s player))"
  shows "get_head_position s player =
    Inr (last (requested_trail s player) ! 0, last (requested_trail s player) ! 1)"
proof -
  let ?h = "last (requested_trail s player)"
  have "list_item ?h 0 = Inr (?h ! 0)" "list_item ?h 1 = Inr (?h ! 1)"
    using assms(2) by (auto simp add: list_item_def)
  then show ?thesis
    using assms(1) by (simp add: get_head_position_def Let_def list_item_last)
qed

lemma get_board_size_proper:
  "brd \<noteq> [] \<Longrightarrow> hd brd \<noteq> [] \<Longrightarrow>
   get_board_size brd = Inr (int (length (hd brd)), int (length brd))"
  by (cases brd) (simp_all add: get_board_size_def list_item_def)

lemma get_board_size_degenerate:
  "brd = [] \<or> hd brd = [] \<Longrightarrow> get_board_size brd = Inr (0, 0)"
  by (cases brd) (auto simp add: get_board_size_def list_item_def)

lemma set_preferred_order: "set (preferred_order turn) = set all_directions"
  by (auto simp: preferred_order_def all_directions_def Let_def)

lemma direction_vector_cases:
  "d \<in> set all_directions \<Longrightarrow> \<exists>dx dy. DIRECTION_VECTORS d = Some (dx, dy)"
  by (auto simp: all_directions_def DIRECTION_VECTORS_def)

lemma candidate_proper:
  assumes "width \<noteq> 0" "height \<noteq> 0" "DIRECTION_VECTORS d = Some (dx, dy)"
  shows "candidate width height hx hy d = Inr ((hx + dx) mod width, (hy + dy) mod height)"
  using assms by (simp add: candidate_def py_mod_def)

lemma is_cell_safe_proper:
  assumes "brd \<noteq> []" "hd brd \<noteq> []"
  shows "is_cell_safe brd x y =
    (case cell brd (x mod int (length (hd brd))) (y mod int (length brd)) of
       Inl e \<Rightarrow> Inl e | Inr v \<Rightarrow> Inr (v = 0))"
  using assms by (cases brd) (simp_all add: is_cell_safe_def list_item_def py_mod_def)

lemma cell_in_range:
  assumes "0 \<le> y" "y < int (length brd)" "0 \<le> x" "x < int (length (brd ! nat y))"
  shows "cell brd x y = Inr (brd ! nat y ! nat x)"
  using assms by (simp add: cell_def list_item_nonneg)

lemma first_safe_result:
  "first_safe brd w h hx hy order = Inr m \<Longrightarrow> m \<in> set order \<or> m = ''RIGHT''"
  by (induction order) (auto split: sum.splits if_splits)

lemma choose_safe_direction_result:
  "choose_safe_direction brd hx hy order = Inr m \<Longrightarrow> m \<in> set order \<or> m = ''RIGHT''"
  by (auto simp: choose_safe_direction_def split: sum.splits if_splits dest: first_safe_result)

lemma choose_move_result:
  assumes "choose_move s b player = Inr m"
  shows "m \<in> set all_directions"
proof -
  have "m = ''RIGHT'' \<or> m \<in> set (preferred_order (get_or (turn_count s) 0))"
    using assms
    by (auto simp: choose_move_def Let_def split: sum.splits if_splits
        dest: choose_safe_direction_result)
  then show ?thesis
    by (auto simp: set_preferred_order) (simp add: all_directions_def)
qed

lemma cell_defined:
  assumes "rows_cover_first brd" "0 \<le> y" "y < int (length brd)"
    "0 \<le> x" "x < int (length (hd brd))"
  shows "\<exists>v. cell brd x y = Inr v"
proof -
  have "brd ! nat y \<in> set brd" using assms by simp
  then have "length (hd brd) \<le> length (brd ! nat y)"
    using assms(1) by (simp add: rows_cover_first_def list_all_iff)
  then show ?thesis using assms by (simp add: cell_in_range)
qed

lemma is_cell_safe_defined:
  assumes "rows_cover_first brd" "brd \<noteq> []" "hd brd \<noteq> []"
  shows "\<exists>r. is_cell_safe brd x y = Inr r"
proof -
  have "\<exists>v. cell brd (x mod int (length (hd brd))) (y mod int (length brd)) = Inr v"
    using assms by (intro cell_defined) simp_all
  then show ?thesis using assms by (auto simp: is_cell_safe_proper)
qed

lemma first_safe_defined:
  assumes "rows_cover_first brd" "brd \<noteq> []" "hd brd \<noteq> []" "w \<noteq> 0" "h \<noteq> 0"
    "set order \<subseteq> set all_directions"
  shows "\<exists>m. first_safe brd w h hx hy order = Inr m"
  using assms(6)
proof (induction order)
  case Nil
  then show ?case by simp
next
  case (Cons d rest)
  from Cons.prems have "d \<in> set all_directions" by simp
  then obtain dx dy where v: "DIRECTION_VECTORS d = Some (dx, dy)"
    using direction_vector_cases by blast
  obtain r where r: "is_cell_safe brd ((hx + dx) mod w) ((hy + dy) mod h) = Inr r"
    using is_cell_safe_defined [OF assms(1-3)] by blast
  from Cons obtain m where "first_safe brd w h hx hy rest = Inr m" by auto
  then show ?case
    using v r by (simp add: candidate_proper [OF assms(4,5) v])
qed

lemma choose_move_defined:
  assumes "rows_cover_first (get_or (board s) [])" "head_readable (requested_trail s player)"
  shows "\<exists>m. choose_move s b player = Inr m"
proof (cases "get_or (board s) [] = []")
  case True
  then show ?thesis by (simp add: choose_move_def)
next
  case False
  obtain hx hy where h: "get_head_position s player = Inr (hx, hy)"
    using assms(2) get_head_position_empty get_head_position_last
    unfolding head_readable_def by blast
  show ?thesis
  proof (cases "hd (get_or (board s) []) = []")
    case True
    then show ?thesis
      using False h
      by (simp add: choose_move_def Let_def choose_safe_direction_def get_board_size_degenerate)
  next
    case nonempty: False
    have "\<exists>m. first_safe (get_or (board s) []) (int (length (hd (get_or (board s) []))))
        (int (length (get_or (board s) []))) hx hy (preferred_order (get_or (turn_count s) 0)) = Inr m"
      using assms(1) False nonempty
      by (intro first_safe_defined) (simp_all add: set_preferred_order)
    then show ?thesis
      using False nonempty h
      by (simp add: choose_move_def Let_def choose_safe_direction_def get_board_size_proper)
  qed
qed

lemma candidate_adjacent:
  assumes "w \<noteq> 0" "h \<noteq> 0" "d \<in> set all_directions"
  shows "candidate w h x y d = Inr (adjacent w h x y d)"
  using assms
  by (auto simp: candidate_def py_mod_def adjacent_def all_directions_def DIRECTION_VECTORS_def)

lemma is_cell_safe_adjacent:
  assumes "brd \<noteq> []" "hd brd \<noteq> []"
    "adjacent (int (length (hd brd))) (int (length brd)) x y d = (ax, ay)"
  shows "is_cell_safe brd ax ay =
    (case adjacent_marker brd x y d of Inl e \<Rightarrow> Inl e | Inr v \<Rightarrow> Inr (v = 0))"
proof -
  have "ax mod int (length (hd brd)) = ax" "ay mod int (length brd) = ay"
    using assms(3) by (auto simp: adjacent_def split: if_splits)
  then show ?thesis
    using assms by (simp add: is_cell_safe_proper adjacent_marker_def)
qed

lemma first_safe_step:
  assumes "brd \<noteq> []" "hd brd \<noteq> []" "d \<in> set all_directions"
  shows "first_safe brd (int (length (hd brd))) (int (length brd)) x y (d # rest) =
    (case adjacent_marker brd x y d of
       Inl e \<Rightarrow> Inl e
     | Inr v \<Rightarrow> if v = 0 then Inr d
         else first_safe brd (int (length (hd brd))) (int (length brd)) x y rest)"
proof -
  obtain ax ay where a: "adjacent (int (length (hd brd))) (int (length brd)) x y d = (ax, ay)"
    by (cases "adjacent (int (length (hd brd))) (int (length brd)) x y d") blast
  have c: "candidate (int (length (hd brd))) (int (length brd)) x y d = Inr (ax, ay)"
    using assms a by (simp add: candidate_adjacent)
  show ?thesis
    by (simp add: c is_cell_safe_adjacent [OF assms(1,2) a] split: sum.splits)
qed

lemma first_safe_all_blocked:
  assumes "brd \<noteq> []" "hd brd \<noteq> []" "set order \<subseteq> set all_directions"
    "\<forall>d \<in> set order. \<exists>v. adjacent_marker brd x y d = Inr v \<and> v \<noteq> 0"
  shows "first_safe brd (int (length (hd brd))) (int (length brd)) x y order = Inr ''RIGHT''"
  using assms(3,4)
proof (induction order)
  case Nil
  then show ?case by simp
next
  case (Cons d rest)
  then obtain v where "adjacent_marker brd x y d = Inr v" "v \<noteq> 0" by auto
  moreover have "d \<in> set all_directions" using Cons.prems by simp
  ultimately show ?case
    using Cons by (simp add: first_safe_step [OF assms(1,2)] del: first_safe.simps)
qed

lemma first_safe_single:
  assumes "brd \<noteq> []" "hd brd \<noteq> []" "set order \<subseteq> set all_directions"
    "d \<in> set order" "adjacent_marker brd x y d = Inr 0"
    "\<forall>d' \<in> set order. d' \<noteq> d \<longrightarrow> (\<exists>v. adjacent_marker brd x y d' = Inr v \<and> v \<noteq> 0)"
  shows "first_safe brd (int (length (hd brd))) (int (length brd)) x y order = Inr d"
  using assms(3,4,6)
proof (induction order)
  case Nil
  then show ?case by simp
next
  case (Cons d0 rest)
  have d0: "d0 \<in> set all_directions" using Cons.prems by simp
  show ?case
  proof (cases "d0 = d")
    case True
    then show ?thesis
      using d0 assms(5) by (simp add: first_safe_step [OF assms(1,2)] del: first_safe.simps)
  next
    case False
    then obtain v where "adjacent_marker brd x y d0 = Inr v" "v \<noteq> 0"
      using Cons.prems by auto
    moreover have "first_safe brd (int (length (hd brd))) (int (length brd)) x y rest = Inr d"
      using Cons False by auto
    ultimately show ?thesis
      using d0 by (simp add: first_safe_step [OF assms(1,2)] del: first_safe.simps)
  qed
qed

lemma choose_move_proper:
  assumes "get_or (board s) [] = brd" "brd \<noteq> []" "hd brd \<noteq> []"
    "get_head_position s player = Inr (x, y)"
  shows "choose_move s b player =
    first_safe brd (int (length (hd brd))) (int (length brd)) x y
      (preferred_order (get_or (turn_count s) 0))"
  using assms
  by (simp add: choose_move_def Let_def choose_safe_direction_def get_board_size_proper)

lemma preferred_order_mod: "t mod 4 = t' mod 4 \<Longrightarrow> preferred_order t = preferred_order t'"
  by (simp add: preferred_order_def)

lemma choose_move_cong:
  fixes s :: "'a state_scheme" and s' :: "'b state_scheme"
  assumes "board s = board s'" "requested_trail s p = requested_trail s' p'"
    "get_or (turn_count s) 0 mod 4 = get_or (turn_count s') 0 mod 4"
  shows "choose_move s b p = choose_move s' b' p'"
proof -
  have "get_head_position s p = get_head_position s' p'"
    by (simp add: get_head_position_def assms(2))
  then show ?thesis
    unfolding choose_move_def Let_def
    using assms(1) preferred_order_mod [OF assms(3)] by (simp split: sum.splits)
qed

lemmas parse_defs =
  move_str_to_direction_and_boost_def direction_part_def split_once_def upper_def
  upper_char_def ascii_upper_def strip_def isspace_def whitespace_codes_def
  Direction_member_def codes_def

lemma codes_BOOST: "codes '':BOOST'' = [0x3A, 0x42, 0x4F, 0x4F, 0x53, 0x54]"
  by (simp add: codes_def)

lemma contains_colon: "contains (codes '':BOOST'') s \<Longrightarrow> of_char CHR '':'' \<in> set s"
  by (induction s) (auto simp: prefix_Cons codes_BOOST)

lemma contains_suffix: "contains sub (xs @ sub)"
proof (induction xs)
  case Nil
  then show ?case by (cases sub) simp_all
next
  case (Cons x xs)
  then show ?case by simp
qed

lemma direction_part_total: "\<exists>part boost. direction_part m = Inr (part, boost)"
  by (auto simp: direction_part_def split_once_def dest: contains_colon)

lemma Direction_member_names:
  "Direction_member D = Some d \<Longrightarrow>
   (D, d) \<in> {(codes ''UP'', UP), (codes ''DOWN'', DOWN), (codes ''LEFT'', LEFT),
              (codes ''RIGHT'', RIGHT)}"
  by (auto simp: Direction_member_def split: if_splits)

lemma direction_part_boosted:
  assumes "Direction_member D = Some d"
  shows "direction_part (D @ codes '':BOOST'') = Inr (D, True)"
proof -
  have "split_once (of_char CHR '':'') (D @ codes '':BOOST'') = [D, codes ''BOOST'']"
    using Direction_member_names [OF assms] by (auto simp: split_once_def codes_def)
  then show ?thesis
    by (simp add: direction_part_def contains_suffix)
qed

lemma direction_part_bare:
  assumes "Direction_member D = Some d"
  shows "direction_part D = Inr (D, False)"
  using Direction_member_names [OF assms] by (auto simp: direction_part_def codes_def)

lemma Direction_member_ends:
  assumes "Direction_member D = Some d"
  shows "D \<noteq> [] \<and> 0x20 < hd D \<and> 0x20 < last D"
  using Direction_member_names [OF assms] by (auto simp: codes_def)

lemma dropWhile_all: "list_all P xs \<Longrightarrow> dropWhile P (xs @ ys) = dropWhile P ys"
  by (induction xs) simp_all

lemma dropWhile_keeps: "\<not> P (hd xs) \<Longrightarrow> xs \<noteq> [] \<Longrightarrow> dropWhile P xs = xs"
  by (cases xs) simp_all

lemma strip_trimmed:
  assumes "list_all isspace pre" "list_all isspace post"
    and "body = [] \<or> (\<not> isspace (hd body) \<and> \<not> isspace (last body))"
  shows "strip (pre @ body @ post) = body"
proof (cases "body = []")
  case True
  have "\<forall>x \<in> set (pre @ post). isspace x"
    using assms(1,2) by (auto simp: list_all_iff)
  then have d: "dropWhile isspace (pre @ post) = []"
    by (simp only: dropWhile_eq_Nil_conv)
  show ?thesis by (simp add: strip_def True d)
next
  case False
  then have h: "\<not> isspace (hd body)" and l: "\<not> isspace (last body)"
    using assms(3) by simp_all
  have 1: "dropWhile isspace (pre @ body @ post) = body @ post"
    using assms(1) False h by (cases body) (simp_all add: dropWhile_all)
  have "list_all isspace (rev post)" using assms(2) by (simp add: list_all_iff)
  then have 2: "dropWhile isspace (rev post @ rev body) = dropWhile isspace (rev body)"
    by (rule dropWhile_all)
  have "\<not> isspace (hd (rev body))" using False l by (simp add: hd_rev)
  moreover have "rev body \<noteq> []" using False by simp
  ultimately have 3: "dropWhile isspace (rev body) = rev body"
    by (rule dropWhile_keeps)
  show ?thesis
    by (simp add: strip_def 1 2 3)
qed

lemma upper_ascii: "list_all (\<lambda>c. c < 0x80) s \<Longrightarrow> upper s = map ascii_upper s"
  by (induction s) (simp_all add: upper_def upper_char_def)

lemma isspace_ascii: "isspace c \<Longrightarrow> c < 0x80 \<Longrightarrow> ascii_upper c = c \<and> c \<le> 0x20"
  by (auto simp: isspace_def whitespace_codes_def ascii_upper_def)

lemma ascii_trimmed:
  assumes "list_all (\<lambda>c. c < 0x80) body" "map ascii_upper body = t"
    and "t \<noteq> []" "0x20 < hd t" "0x20 < last t"
  shows "\<not> isspace (hd body) \<and> \<not> isspace (last body)"
proof -
  have n: "body \<noteq> []" using assms(2,3) by auto
  then have a: "hd body < 0x80" "last body < 0x80"
    using assms(1) by (simp_all add: list_all_iff)
  have "ascii_upper (hd body) = hd t" "ascii_upper (last body) = last t"
    using assms(2) n by (auto simp: hd_map last_map)
  then show ?thesis
    using assms(4,5) isspace_ascii a by fastforce
qed

lemma candidate_in_range:
  assumes "0 < w" "0 < h" "candidate w h x y d = Inr (cx, cy)"
  shows "0 \<le> cx \<and> cx < w \<and> 0 \<le> cy \<and> cy < h"
  using assms
  by (auto simp: candidate_def py_mod_def split: option.splits prod.splits)

lemma first_safe_reads_candidate:
  assumes "brd \<noteq> []" "hd brd \<noteq> []"
    and "w = int (length (hd brd))" "h = int (length brd)"
  shows "first_safe brd w h x y (d # rest) =
    (case candidate w h x y d of
       Inl e \<Rightarrow> Inl e
     | Inr (cx, cy) \<Rightarrow>
         (case cell brd cx cy of
            Inl e \<Rightarrow> Inl e
          | Inr v \<Rightarrow> if v = 0 then Inr d else first_safe brd w h x y rest))"
proof (cases "candidate w h x y d")
  case (Inl e)
  then show ?thesis by simp
next
  case (Inr c)
  obtain cx cy where c: "c = (cx, cy)" by (cases c)
  have pos: "0 < w" "0 < h" using assms by simp_all
  have "0 \<le> cx \<and> cx < w \<and> 0 \<le> cy \<and> cy < h"
    using candidate_in_range [OF pos] Inr c by simp
  then have "cx mod int (length (hd brd)) = cx" "cy mod int (length brd) = cy"
    using assms(3,4) by simp_all
  then have "is_cell_safe brd cx cy =
      (case cell brd cx cy of Inl e \<Rightarrow> Inl e | Inr v \<Rightarrow> Inr (v = 0))"
    using assms(1,2) by (simp add: is_cell_safe_proper)
  then show ?thesis
    using Inr c by (simp split: sum.splits)
qed

section \<open>Properties of choose_move\<close>

text \<open>
  C1, as stated, fails: on a board whose second row is shorter than its first, with the
  head at the origin and turn 1, the first cell tested is \<open>board[1][0]\<close>, which does
  not exist, and \<open>choose_move\<close> raises \<open>IndexError\<close> instead of returning a move.
\<close>

theorem choose_move_ragged_board_raises:
  "choose_move (snapshot [[0, 0], []] [] [] 1) 0 1 = Inl IndexError"
  by (simp add: brain_defs)

text \<open>
  A trail whose last element has fewer than two coordinates raises as well, on any board
  with at least one row: \<open>head[1]\<close> does not exist.
\<close>

lemma choose_move_short_head_raises:
  "choose_move (snapshot [[0, 0], [0, 0]] [[1]] [] 0) 0 1 = Inl IndexError"
  by (simp add: brain_defs)

text \<open>
  C1 (amended): for every state whose board has no row shorter than its first row and
  whose requesting player's trail is absent, empty, or ends in an element of at least two
  coordinates, and for every boosts_remaining and player_number, \<open>choose_move\<close> returns
  one of the four strings UP, DOWN, LEFT, RIGHT (never one with a boost suffix); this
  covers the empty and the absent board, empty and absent trails, and every turn_count,
  negative ones included.
\<close>

theorem choose_move_total:
  assumes "rows_cover_first (get_or (board s) [])"
    and "head_readable (requested_trail s player)"
  shows "choose_move s boosts_remaining player \<in>
    {Inr ''UP'', Inr ''DOWN'', Inr ''LEFT'', Inr ''RIGHT''}"
proof -
  obtain m where m: "choose_move s boosts_remaining player = Inr m"
    using choose_move_defined [OF assms] by blast
  then have "m \<in> set all_directions"
    by (rule choose_move_result)
  then show ?thesis
    using m by (auto simp: all_directions_def)
qed

theorem choose_move_total_witness:
  "rows_cover_first [[0, 0, 0], [0, 0, 0], [0, 0, 0]] \<and> head_readable [[1, 1]] \<and>
   choose_move (snapshot [[0, 0, 0], [0, 0, 0], [0, 0, 0]] [[1, 1]] [] (- 7)) 2 1 \<in>
     {Inr ''UP'', Inr ''DOWN'', Inr ''LEFT'', Inr ''RIGHT''}"
proof -
  have b: "rows_cover_first (get_or (board (snapshot [[0, 0, 0], [0, 0, 0], [0, 0, 0]] [[1, 1]] [] (- 7))) [])"
    by (simp add: rows_cover_first_def snapshot_def get_or_def)
  have t: "head_readable (requested_trail (snapshot [[0, 0, 0], [0, 0, 0], [0, 0, 0]] [[1, 1]] [] (- 7)) 1)"
    by (simp add: head_readable_def requested_trail_def snapshot_def get_or_def)
  show ?thesis
    using choose_move_total [OF b t, of 2]
    by (simp add: rows_cover_first_def head_readable_def)
qed

text \<open>
  C2: on a non-degenerate board (at least one row, a non-empty first row), when the cell
  toroidally adjacent to the requesting player's head in direction \<open>d\<close> holds 0 and the
  adjacent cells in the three other directions hold non-zero markers, \<open>choose_move\<close>
  returns \<open>d\<close>, whatever the turn counter is (present or absent).
\<close>

theorem choose_move_single_safe:
  assumes "get_or (board s) [] = brd" "brd \<noteq> []" "hd brd \<noteq> []"
    and "get_head_position s player = Inr (x, y)"
    and "d \<in> set all_directions"
    and "adjacent_marker brd x y d = Inr 0"
    and "\<forall>d' \<in> set all_directions. d' \<noteq> d \<longrightarrow>
           (\<exists>v. adjacent_marker brd x y d' = Inr v \<and> v \<noteq> 0)"
  shows "choose_move s boosts_remaining player = Inr d"
  unfolding choose_move_proper [OF assms(1-4)]
  using assms(5-7)
  by (intro first_safe_single [OF assms(2,3)]) (simp_all add: set_preferred_order)

theorem choose_move_single_safe_witness:
  "choose_move (snapshot [[5, 5, 5], [0, 1, 2], [5, 5, 5]] [[1, 1]] [] 0) 0 1 = Inr ''LEFT''"
proof -
  let ?brd = "[[5, 5, 5], [0, 1, 2], [5, 5, 5 :: int]]"
  let ?s = "snapshot ?brd [[1, 1]] [] 0"
  have 1: "get_or (board ?s) [] = ?brd" by (simp add: snapshot_def get_or_def)
  have 2: "?brd \<noteq> []" "hd ?brd \<noteq> []" by simp_all
  have 3: "get_head_position ?s 1 = Inr (1, 1)" by (simp add: brain_defs)
  have 4: "''LEFT'' \<in> set all_directions" by (simp add: all_directions_def)
  have 5: "adjacent_marker ?brd 1 1 ''LEFT'' = Inr 0"
    by (simp add: adjacent_marker_def adjacent_def cell_def list_item_def)
  have 6: "\<forall>d' \<in> set all_directions. d' \<noteq> ''LEFT'' \<longrightarrow>
      (\<exists>v. adjacent_marker ?brd 1 1 d' = Inr v \<and> v \<noteq> 0)"
    by (simp add: all_directions_def adjacent_marker_def adjacent_def cell_def list_item_def)
  show ?thesis
    by (rule choose_move_single_safe [OF 1 2 3 4 5 6])
qed

text \<open>
  C3: on a board of positive width \<open>w\<close> (the length of its first row) and positive
  height \<open>h\<close> (its number of rows), the candidate of a direction is the head plus the
  direction's vector, reduced modulo \<open>w\<close> on the x axis and modulo \<open>h\<close> on the y axis,
  so it lies in \<open>[0,w) \<times> [0,h)\<close>; it is the toroidally adjacent cell; from the head
  \<open>(0,0)\<close>, UP gives \<open>(0, h-1)\<close> and LEFT gives \<open>(w-1, 0)\<close>; the loop reads the board at
  exactly that cell, and \<open>choose_move\<close> runs that loop over its preference order.
\<close>

theorem candidate_wraps:
  assumes "brd \<noteq> []" "hd brd \<noteq> []"
    and "w = int (length (hd brd))" "h = int (length brd)"
  shows "(\<forall>d dx dy. DIRECTION_VECTORS d = Some (dx, dy) \<longrightarrow>
            candidate w h x y d = Inr ((x + dx) mod w, (y + dy) mod h) \<and>
            0 \<le> (x + dx) mod w \<and> (x + dx) mod w < w \<and>
            0 \<le> (y + dy) mod h \<and> (y + dy) mod h < h)
       \<and> (\<forall>d \<in> set all_directions. candidate w h x y d = Inr (adjacent w h x y d))
       \<and> candidate w h 0 0 ''UP'' = Inr (0, h - 1)
       \<and> candidate w h 0 0 ''LEFT'' = Inr (w - 1, 0)
       \<and> (\<forall>d rest. first_safe brd w h x y (d # rest) =
            (case candidate w h x y d of
               Inl e \<Rightarrow> Inl e
             | Inr (cx, cy) \<Rightarrow>
                 (case cell brd cx cy of
                    Inl e \<Rightarrow> Inl e
                  | Inr v \<Rightarrow> if v = 0 then Inr d else first_safe brd w h x y rest)))
       \<and> (get_or (board s) [] = brd \<longrightarrow> get_head_position s player = Inr (x, y) \<longrightarrow>
            choose_move s boosts_remaining player =
              first_safe brd w h x y (preferred_order (get_or (turn_count s) 0)))"
proof -
  have pos: "0 < w" "0 < h" using assms by simp_all
  have a: "\<forall>d dx dy. DIRECTION_VECTORS d = Some (dx, dy) \<longrightarrow>
            candidate w h x y d = Inr ((x + dx) mod w, (y + dy) mod h) \<and>
            0 \<le> (x + dx) mod w \<and> (x + dx) mod w < w \<and>
            0 \<le> (y + dy) mod h \<and> (y + dy) mod h < h"
    using pos by (simp add: candidate_proper)
  have b: "\<forall>d \<in> set all_directions. candidate w h x y d = Inr (adjacent w h x y d)"
    using pos by (simp add: candidate_adjacent)
  have c: "candidate w h 0 0 ''UP'' = Inr (0, h - 1)"
    using pos by (simp add: candidate_def DIRECTION_VECTORS_def py_mod_def zmod_minus1)
  have d: "candidate w h 0 0 ''LEFT'' = Inr (w - 1, 0)"
    using pos by (simp add: candidate_def DIRECTION_VECTORS_def py_mod_def zmod_minus1)
  have e: "\<forall>d rest. first_safe brd w h x y (d # rest) =
            (case candidate w h x y d of
               Inl e \<Rightarrow> Inl e
             | Inr (cx, cy) \<Rightarrow>
                 (case cell brd cx cy of
                    Inl e \<Rightarrow> Inl e
                  | Inr v \<Rightarrow> if v = 0 then Inr d else first_safe brd w h x y rest))"
    using first_safe_reads_candidate [OF assms] by blast
  have f: "get_or (board s) [] = brd \<longrightarrow> get_head_position s player = Inr (x, y) \<longrightarrow>
            choose_move s boosts_remaining player =
              first_safe brd w h x y (preferred_order (get_or (turn_count s) 0))"
    using assms by (simp add: choose_move_proper)
  show ?thesis
    using a b c d e f by blast
qed

theorem candidate_wraps_witness:
  "candidate 3 2 0 0 ''UP'' = Inr (0, 1) \<and> candidate 3 2 0 0 ''LEFT'' = Inr (2, 0)"
proof -
  let ?brd = "[[0, 0, 0], [0, 0, 0 :: int]]"
  have 1: "?brd \<noteq> []" "hd ?brd \<noteq> []" by simp_all
  have 2: "(3 :: int) = int (length (hd ?brd))" "(2 :: int) = int (length ?brd)" by simp_all
  show ?thesis
    using candidate_wraps [OF 1 2, of 0 0 "snapshot ?brd [] [] 0" 1 0] by simp
qed

text \<open>
  C4: on a non-degenerate board, when the four cells toroidally adjacent to the requesting
  player's head all hold non-zero markers, \<open>choose_move\<close> returns RIGHT, whatever the
  turn counter is, although the cell to the right is occupied.
\<close>

theorem choose_move_surrounded:
  assumes "get_or (board s) [] = brd" "brd \<noteq> []" "hd brd \<noteq> []"
    and "get_head_position s player = Inr (x, y)"
    and "\<forall>d \<in> set all_directions. \<exists>v. adjacent_marker brd x y d = Inr v \<and> v \<noteq> 0"
  shows "choose_move s boosts_remaining player = Inr ''RIGHT''"
  unfolding choose_move_proper [OF assms(1-4)]
  using assms(5)
  by (intro first_safe_all_blocked [OF assms(2,3)]) (simp_all add: set_preferred_order)

theorem choose_move_surrounded_witness:
  "adjacent_marker [[0, 7, 0], [1, 0, 2], [0, 3, 0]] 1 1 ''RIGHT'' = Inr 2 \<and>
   choose_move (snapshot [[0, 7, 0], [1, 0, 2], [0, 3, 0]] [] [[1, 1]] 2) 0 2 = Inr ''RIGHT''"
proof -
  let ?brd = "[[0, 7, 0], [1, 0, 2], [0, 3, 0 :: int]]"
  let ?s = "snapshot ?brd [] [[1, 1]] 2"
  have 1: "get_or (board ?s) [] = ?brd" by (simp add: snapshot_def get_or_def)
  have 2: "?brd \<noteq> []" "hd ?brd \<noteq> []" by simp_all
  have 3: "get_head_position ?s 2 = Inr (1, 1)" by (simp add: brain_defs)
  have 4: "\<forall>d \<in> set all_directions. \<exists>v. adjacent_marker ?brd 1 1 d = Inr v \<and> v \<noteq> 0"
    by (simp add: all_directions_def adjacent_marker_def adjacent_def cell_def list_item_def)
  have 5: "adjacent_marker ?brd 1 1 ''RIGHT'' = Inr 2"
    by (simp add: adjacent_marker_def adjacent_def cell_def list_item_def)
  show ?thesis
    using choose_move_surrounded [OF 1 2 3 4, of 0] 5 by simp
qed

text \<open>
  C5: two states with the same board and trails whose turn counters (an absent one
  counting as 0) are congruent modulo 4 get the same result from \<open>choose_move\<close>, for the
  same boosts_remaining and player_number; in particular turn counts \<open>t\<close> and \<open>t + 4\<close>
  do.  At turn count 0 the order in which the candidates are tested is RIGHT, DOWN, UP,
  LEFT.
\<close>

theorem choose_move_turn_period:
  fixes s s' :: "'a state_scheme"
  assumes "board s = board s'"
    and "agent1_trail s = agent1_trail s'" "agent2_trail s = agent2_trail s'"
    and "get_or (turn_count s) 0 mod 4 = get_or (turn_count s') 0 mod 4"
  shows "choose_move s boosts_remaining player = choose_move s' boosts_remaining player
       \<and> choose_move (s\<lparr>turn_count := Some t\<rparr>) boosts_remaining player =
           choose_move (s\<lparr>turn_count := Some (t + 4)\<rparr>) boosts_remaining player
       \<and> preferred_order 0 = [''RIGHT'', ''DOWN'', ''UP'', ''LEFT'']
       \<and> (get_or (board s) [] \<noteq> [] \<longrightarrow> get_or (turn_count s) 0 = 0 \<longrightarrow>
            choose_move s boosts_remaining player =
              (case get_head_position s player of
                 Inl e \<Rightarrow> Inl e
               | Inr (head_x, head_y) \<Rightarrow>
                   choose_safe_direction (get_or (board s) []) head_x head_y
                     [''RIGHT'', ''DOWN'', ''UP'', ''LEFT'']))"
proof -
  have "requested_trail s player = requested_trail s' player"
    using assms(2,3) by (simp add: requested_trail_def)
  then have a: "choose_move s boosts_remaining player = choose_move s' boosts_remaining player"
    using assms(1,4) by (intro choose_move_cong) simp_all
  have b: "choose_move (s\<lparr>turn_count := Some t\<rparr>) boosts_remaining player =
      choose_move (s\<lparr>turn_count := Some (t + 4)\<rparr>) boosts_remaining player"
    by (intro choose_move_cong) (simp_all add: requested_trail_def get_or_def)
  have c: "preferred_order 0 = [''RIGHT'', ''DOWN'', ''UP'', ''LEFT'']"
    by (simp add: preferred_order_def)
  have d: "get_or (board s) [] \<noteq> [] \<longrightarrow> get_or (turn_count s) 0 = 0 \<longrightarrow>
      choose_move s boosts_remaining player =
        (case get_head_position s player of
           Inl e \<Rightarrow> Inl e
         | Inr (head_x, head_y) \<Rightarrow>
             choose_safe_direction (get_or (board s) []) head_x head_y
               [''RIGHT'', ''DOWN'', ''UP'', ''LEFT''])"
    unfolding choose_move_def Let_def by (simp add: c split: sum.splits)
  show ?thesis
    using a b c d by blast
qed

theorem choose_move_turn_period_witness:
  "choose_move (snapshot [[0, 0, 0], [0, 0, 0], [0, 0, 0]] [[1, 1]] [] 0) 0 1 = Inr ''RIGHT'' \<and>
   choose_move (snapshot [[0, 0, 0], [0, 0, 0], [0, 0, 0]] [[1, 1]] [] 4) 0 1 = Inr ''RIGHT''"
proof -
  let ?s = "snapshot [[0, 0, 0], [0, 0, 0], [0, 0, 0]] [[1, 1]] []"
  have 1: "board (?s 0) = board (?s 4)" "agent1_trail (?s 0) = agent1_trail (?s 4)"
    "agent2_trail (?s 0) = agent2_trail (?s 4)"
    by (simp_all add: snapshot_def)
  have 2: "get_or (turn_count (?s 0)) 0 mod 4 = get_or (turn_count (?s 4)) 0 mod 4"
    by (simp add: snapshot_def get_or_def)
  have 3: "choose_move (?s 0) 0 1 = Inr ''RIGHT''"
    by (simp add: brain_defs)
  show ?thesis
    using choose_move_turn_period [OF 1 2, of 0 1] 3 by simp
qed

text \<open>
  C6, as stated, fails: on the board \<open>[[]]\<close> (one empty row) the head is read before the
  size of the board is looked at, and a trail whose last element has no coordinates makes
  \<open>choose_move\<close> raise \<open>IndexError\<close> instead of returning RIGHT.
\<close>

theorem choose_move_empty_row_raises:
  "choose_move (snapshot [[]] [[]] [] 0) 0 1 = Inl IndexError"
  by (simp add: brain_defs)

text \<open>
  C6 (amended): when the board is absent or has zero rows, \<open>choose_move\<close> returns RIGHT
  whatever the trails, the turn counter and the player number are; when the first row of
  the board is empty, it returns RIGHT whatever the turn counter and the player number
  are, provided the requesting player's trail is absent, empty, or ends in an element of
  at least two coordinates.
\<close>

theorem choose_move_degenerate_board:
  assumes "get_or (board s) [] = [] \<or>
    (hd (get_or (board s) []) = [] \<and> head_readable (requested_trail s player))"
  shows "choose_move s boosts_remaining player = Inr ''RIGHT''"
proof (cases "get_or (board s) [] = []")
  case True
  then show ?thesis by (simp add: choose_move_def)
next
  case False
  then have e: "hd (get_or (board s) []) = []"
    and r: "head_readable (requested_trail s player)"
    using assms by simp_all
  obtain x y where "get_head_position s player = Inr (x, y)"
    using r get_head_position_empty get_head_position_last
    unfolding head_readable_def by blast
  then show ?thesis
    using False e
    by (simp add: choose_move_def Let_def choose_safe_direction_def get_board_size_degenerate)
qed

theorem choose_move_degenerate_board_witness:
  "choose_move (snapshot [] [[]] [[4]] 3) 0 1 = Inr ''RIGHT'' \<and>
   choose_move (snapshot [[], [1, 2]] [[7, 8]] [] 5) 0 1 = Inr ''RIGHT''"
proof -
  have 1: "get_or (board (snapshot [] [[]] [[4]] 3)) [] = [] \<or>
    (hd (get_or (board (snapshot [] [[]] [[4]] 3)) []) = [] \<and>
     head_readable (requested_trail (snapshot [] [[]] [[4]] 3) 1))"
    by (simp add: snapshot_def get_or_def)
  have 2: "get_or (board (snapshot [[], [1, 2]] [[7, 8]] [] 5)) [] = [] \<or>
    (hd (get_or (board (snapshot [[], [1, 2]] [[7, 8]] [] 5)) []) = [] \<and>
     head_readable (requested_trail (snapshot [[], [1, 2]] [[7, 8]] [] 5) 1))"
    by (simp add: snapshot_def get_or_def head_readable_def requested_trail_def)
  show ?thesis
    using choose_move_degenerate_board [OF 1, of 0] choose_move_degenerate_board [OF 2, of 0]
    by simp
qed

text \<open>
  C7: the head \<open>choose_move\<close> uses is the one \<open>_get_head_position\<close> returns for the
  requesting player's trail field (\<open>agent1_trail\<close> for player 1, \<open>agent2_trail\<close>
  otherwise): \<open>(0,0)\<close> when the field is absent or the trail is empty, and the last
  element \<open>[x, y]\<close> of the trail otherwise; on a non-empty board the move is the safe
  direction chosen from that head.
\<close>

theorem head_is_last_of_trail:
  fixes s :: "'a state_scheme"
  assumes "trail_field = (if player = 1 then agent1_trail s else agent2_trail s)"
  shows "(trail_field = None \<or> trail_field = Some [] \<longrightarrow> get_head_position s player = Inr (0, 0))
       \<and> (\<forall>trail x y. trail_field = Some trail \<longrightarrow> trail \<noteq> [] \<longrightarrow> last trail = [x, y] \<longrightarrow>
            get_head_position s player = Inr (x, y))
       \<and> (get_or (board s) [] \<noteq> [] \<longrightarrow>
            choose_move s boosts_remaining player =
              (case get_head_position s player of
                 Inl e \<Rightarrow> Inl e
               | Inr (head_x, head_y) \<Rightarrow>
                   choose_safe_direction (get_or (board s) []) head_x head_y
                     (preferred_order (get_or (turn_count s) 0))))"
proof -
  have t: "requested_trail s player = get_or trail_field []"
    using assms by (simp add: requested_trail_def)
  have a: "trail_field = None \<or> trail_field = Some [] \<longrightarrow> get_head_position s player = Inr (0, 0)"
    using t by (auto simp: get_head_position_empty get_or_def)
  have b: "\<forall>trail x y. trail_field = Some trail \<longrightarrow> trail \<noteq> [] \<longrightarrow> last trail = [x, y] \<longrightarrow>
      get_head_position s player = Inr (x, y)"
  proof (intro allI impI)
    fix trail x y
    assume f: "trail_field = Some trail" and n: "trail \<noteq> []" and l: "last trail = [x, y]"
    have r: "requested_trail s player = trail" using t f by (simp add: get_or_def)
    show "get_head_position s player = Inr (x, y)"
      using get_head_position_last [of s player] n l by (simp add: r)
  qed
  have c: "get_or (board s) [] \<noteq> [] \<longrightarrow>
      choose_move s boosts_remaining player =
        (case get_head_position s player of
           Inl e \<Rightarrow> Inl e
         | Inr (head_x, head_y) \<Rightarrow>
             choose_safe_direction (get_or (board s) []) head_x head_y
               (preferred_order (get_or (turn_count s) 0)))"
    unfolding choose_move_def Let_def by simp
  show ?thesis
    using a b c by blast
qed

theorem head_is_last_of_trail_witness:
  "get_head_position (snapshot [[0, 0, 0], [0, 0, 0], [0, 0, 0]] [[0, 1], [1, 1], [2, 1]] [] 0) 1 = Inr (2, 1) \<and>
   get_head_position (snapshot [[0, 0, 0], [0, 0, 0], [0, 0, 0]] [[0, 1], [1, 1], [2, 1]] [] 0) 2 = Inr (0, 0)"
proof -
  let ?s = "snapshot [[0, 0, 0], [0, 0, 0], [0, 0, 0]] [[0, 1], [1, 1], [2, 1]] [] 0"
  have 1: "Some [[0, 1], [1, 1], [2, 1]] = (if (1 :: int) = 1 then agent1_trail ?s else agent2_trail ?s)"
    by (simp add: snapshot_def)
  have 2: "Some [] = (if (2 :: int) = 1 then agent1_trail ?s else agent2_trail ?s)"
    by (simp add: snapshot_def)
  show ?thesis
    using head_is_last_of_trail [OF 1, of 0] head_is_last_of_trail [OF 2, of 0] by simp
qed

text \<open>
  C8: two calls of \<open>choose_move\<close> with the same player number, on states that agree on
  the board, the turn counter and the requesting player's trail field, return the same
  result, whatever the opponent's trail, the length, alive and boost fields, any further
  field of either state and the two boosts_remaining arguments are.
\<close>

theorem choose_move_ignores_unused:
  fixes s :: "'a state_scheme" and s' :: "'b state_scheme"
  assumes "board s = board s'" and "turn_count s = turn_count s'"
    and "if player = 1 then agent1_trail s = agent1_trail s'
         else agent2_trail s = agent2_trail s'"
  shows "choose_move s boosts_remaining player = choose_move s' boosts_remaining' player"
proof -
  have "requested_trail s player = requested_trail s' player"
    using assms(3) by (simp add: requested_trail_def split: if_splits)
  then show ?thesis
    using assms(1,2) by (intro choose_move_cong) simp_all
qed

theorem choose_move_ignores_unused_witness:
  "choose_move (snapshot [[0, 0, 0], [0, 0, 0], [0, 0, 0]] [[1, 1]] [] 1) 0 1 =
   choose_move
     ((snapshot [[0, 0, 0], [0, 0, 0], [0, 0, 0]] [[1, 1]] [[0, 0], [0, 1]] 1)
        \<lparr>agent1_length := Some 1, agent2_alive := Some False, agent1_boosts := Some 3,
         player_number := Some 1\<rparr>) 3 1"
proof -
  let ?s = "snapshot [[0, 0, 0], [0, 0, 0], [0, 0, 0]] [[1, 1]] [] 1"
  let ?s' = "(snapshot [[0, 0, 0], [0, 0, 0], [0, 0, 0]] [[1, 1]] [[0, 0], [0, 1]] 1)
        \<lparr>agent1_length := Some 1, agent2_alive := Some False, agent1_boosts := Some 3,
         player_number := Some 1\<rparr>"
  have 1: "board ?s = board ?s'" "turn_count ?s = turn_count ?s'"
    by (simp_all add: snapshot_def)
  have 2: "if (1 :: int) = 1 then agent1_trail ?s = agent1_trail ?s'
    else agent2_trail ?s = agent2_trail ?s'"
    by (simp add: snapshot_def)
  show ?thesis
    by (rule choose_move_ignores_unused [OF 1 2])
qed

text \<open>
  C9: for every player number other than 1 (0, 3 and negative numbers included) the
  trail read is the \<open>agent2_trail\<close> field, the \<open>agent1_trail\<close> field has no influence,
  and \<open>choose_move\<close> returns what it returns for player number 2 on the same state.
\<close>

theorem choose_move_other_player_is_two:
  assumes "player \<noteq> 1"
  shows "requested_trail s player = get_or (agent2_trail s) []
       \<and> get_head_position s player = get_head_position s 2
       \<and> choose_move s boosts_remaining player = choose_move s boosts_remaining 2
       \<and> choose_move (s\<lparr>agent1_trail := other\<rparr>) boosts_remaining player =
           choose_move s boosts_remaining player"
proof -
  have a: "requested_trail s player = get_or (agent2_trail s) []"
    using assms by (simp add: requested_trail_def)
  have r: "requested_trail s player = requested_trail s 2"
    using assms by (simp add: requested_trail_def)
  have b: "get_head_position s player = get_head_position s 2"
    by (simp add: get_head_position_def r)
  have c: "choose_move s boosts_remaining player = choose_move s boosts_remaining 2"
    using r by (intro choose_move_cong) simp_all
  have d: "choose_move (s\<lparr>agent1_trail := other\<rparr>) boosts_remaining player =
      choose_move s boosts_remaining player"
    using assms by (intro choose_move_cong) (simp_all add: requested_trail_def)
  show ?thesis
    using a b c d by blast
qed

theorem choose_move_other_player_is_two_witness:
  "choose_move (snapshot [[0, 0, 0], [0, 0, 0], [0, 0, 0]] [[1, 1]] [[2, 2]] 1) 0 (- 3) =
   choose_move (snapshot [[0, 0, 0], [0, 0, 0], [0, 0, 0]] [[1, 1]] [[2, 2]] 1) 0 2"
proof -
  have "(- 3 :: int) \<noteq> 1" by simp
  then show ?thesis
    using choose_move_other_player_is_two by blast
qed

section \<open>Properties of move_str_to_direction_and_boost\<close>

text \<open>
  The two tables of \<open>upper\<close> at work: sharp s becomes \<open>SS\<close>, long s becomes \<open>S\<close>,
  \<open>e\<close> with acute and \<open>y\<close> with diaeresis get their capitals, the ligature \<open>st\<close>
  becomes \<open>ST\<close>, and a digit stays.
\<close>

lemma upper_examples:
  "upper [0xDF, 0x17F, 0xE9, 0xFF, 0xFB06, 0x37] = [0x53, 0x53, 0x53, 0xC9, 0x178, 0x53, 0x54, 0x37]"
  by (simp add: upper_def upper_char_def ascii_upper_def special_upper_def
      simple_upper_ranges_def)

text \<open>
  C10: for every input string, \<open>move_str_to_direction_and_boost\<close> returns a pair and
  never raises: the pair is the member named by the direction part of the stripped and
  uppercased input, with the boost flag, or \<open>(RIGHT, False)\<close> when the direction part
  names no member.  When the stripped and uppercased input is a valid direction name
  followed by \<open>:BOOST\<close> the result is that direction with boost \<open>True\<close>; when it is a
  bare valid direction name the result is that direction with boost \<open>False\<close>.  Stripping
  removes the whitespace code points around a body that neither starts nor ends with one;
  uppercasing a string of ASCII code points maps \<open>a\<close> to \<open>z\<close> onto \<open>A\<close> to \<open>Z\<close> and
  keeps the rest.  So an input made of whitespace, an ASCII body and whitespace gives the
  direction the body spells in any mix of cases, with boost \<open>True\<close> when \<open>:boost\<close>
  follows it in any mix of cases.
\<close>

theorem move_str_to_direction_and_boost_total:
  "(\<exists>part boost. direction_part (upper (strip s)) = Inr (part, boost) \<and>
      move_str_to_direction_and_boost s =
        Inr (case Direction_member part of Some d \<Rightarrow> (d, boost) | None \<Rightarrow> (RIGHT, False)))
   \<and> (\<forall>D d. Direction_member D = Some d \<longrightarrow> upper (strip s) = D @ codes '':BOOST'' \<longrightarrow>
          move_str_to_direction_and_boost s = Inr (d, True))
   \<and> (\<forall>D d. Direction_member D = Some d \<longrightarrow> upper (strip s) = D \<longrightarrow>
          move_str_to_direction_and_boost s = Inr (d, False))
   \<and> (\<forall>part boost. direction_part (upper (strip s)) = Inr (part, boost) \<longrightarrow>
          Direction_member part = None \<longrightarrow>
          move_str_to_direction_and_boost s = Inr (RIGHT, False))
   \<and> (\<forall>pre body post. list_all isspace pre \<longrightarrow> list_all isspace post \<longrightarrow>
          (body = [] \<or> (\<not> isspace (hd body) \<and> \<not> isspace (last body))) \<longrightarrow>
          strip (pre @ body @ post) = body)
   \<and> (\<forall>body. list_all (\<lambda>c. c < 0x80) body \<longrightarrow>
          upper body = map (\<lambda>c. if 0x61 \<le> c \<and> c \<le> 0x7A then c - 0x20 else c) body)
   \<and> (\<forall>pre body post D d. list_all isspace pre \<longrightarrow> list_all isspace post \<longrightarrow>
          list_all (\<lambda>c. c < 0x80) body \<longrightarrow> Direction_member D = Some d \<longrightarrow>
          (map ascii_upper body = D @ codes '':BOOST'' \<longrightarrow>
             move_str_to_direction_and_boost (pre @ body @ post) = Inr (d, True)) \<and>
          (map ascii_upper body = D \<longrightarrow>
             move_str_to_direction_and_boost (pre @ body @ post) = Inr (d, False)))"
proof -
  have boosted: "Direction_member D = Some d \<Longrightarrow> upper (strip r) = D @ codes '':BOOST'' \<Longrightarrow>
      move_str_to_direction_and_boost r = Inr (d, True)" for D d r
    by (simp add: move_str_to_direction_and_boost_def direction_part_boosted)
  have bare: "Direction_member D = Some d \<Longrightarrow> upper (strip r) = D \<Longrightarrow>
      move_str_to_direction_and_boost r = Inr (d, False)" for D d r
    by (simp add: move_str_to_direction_and_boost_def direction_part_bare)
  have c1: "\<exists>part boost. direction_part (upper (strip s)) = Inr (part, boost) \<and>
      move_str_to_direction_and_boost s =
        Inr (case Direction_member part of Some d \<Rightarrow> (d, boost) | None \<Rightarrow> (RIGHT, False))"
  proof -
    obtain part boost where "direction_part (upper (strip s)) = Inr (part, boost)"
      using direction_part_total by blast
    then show ?thesis
      by (cases "Direction_member part") (auto simp: move_str_to_direction_and_boost_def)
  qed
  have c2: "\<forall>D d. Direction_member D = Some d \<longrightarrow> upper (strip s) = D @ codes '':BOOST'' \<longrightarrow>
      move_str_to_direction_and_boost s = Inr (d, True)"
    using boosted by blast
  have c3: "\<forall>D d. Direction_member D = Some d \<longrightarrow> upper (strip s) = D \<longrightarrow>
      move_str_to_direction_and_boost s = Inr (d, False)"
    using bare by blast
  have c4: "\<forall>part boost. direction_part (upper (strip s)) = Inr (part, boost) \<longrightarrow>
      Direction_member part = None \<longrightarrow>
      move_str_to_direction_and_boost s = Inr (RIGHT, False)"
    by (simp add: move_str_to_direction_and_boost_def)
  have c5: "\<forall>pre body post. list_all isspace pre \<longrightarrow> list_all isspace post \<longrightarrow>
      (body = [] \<or> (\<not> isspace (hd body) \<and> \<not> isspace (last body))) \<longrightarrow>
      strip (pre @ body @ post) = body"
    by (intro allI impI) (rule strip_trimmed)
  have c6: "\<forall>body. list_all (\<lambda>c. c < 0x80) body \<longrightarrow>
      upper body = map (\<lambda>c. if 0x61 \<le> c \<and> c \<le> 0x7A then c - 0x20 else c) body"
  proof (intro allI impI)
    fix body :: "nat list"
    assume "list_all (\<lambda>c. c < 0x80) body"
    then have "upper body = map ascii_upper body" by (rule upper_ascii)
    then show "upper body = map (\<lambda>c. if 0x61 \<le> c \<and> c \<le> 0x7A then c - 0x20 else c) body"
      by (simp add: ascii_upper_def)
  qed
  have c7: "\<forall>pre body post D d. list_all isspace pre \<longrightarrow> list_all isspace post \<longrightarrow>
      list_all (\<lambda>c. c < 0x80) body \<longrightarrow> Direction_member D = Some d \<longrightarrow>
      (map ascii_upper body = D @ codes '':BOOST'' \<longrightarrow>
         move_str_to_direction_and_boost (pre @ body @ post) = Inr (d, True)) \<and>
      (map ascii_upper body = D \<longrightarrow>
         move_str_to_direction_and_boost (pre @ body @ post) = Inr (d, False))"
  proof (intro allI impI conjI)
    fix pre body post D d
    assume w: "list_all isspace pre" "list_all isspace post"
      and a: "list_all (\<lambda>c. c < 0x80) body" and m: "Direction_member D = Some d"
      and e: "map ascii_upper body = D @ codes '':BOOST''"
    have "\<not> isspace (hd body) \<and> \<not> isspace (last body)"
      using Direction_member_ends [OF m]
      by (intro ascii_trimmed [OF a e]) (simp_all add: codes_BOOST)
    then have "strip (pre @ body @ post) = body"
      using w by (simp add: strip_trimmed)
    then have "upper (strip (pre @ body @ post)) = D @ codes '':BOOST''"
      using e a by (simp add: upper_ascii)
    then show "move_str_to_direction_and_boost (pre @ body @ post) = Inr (d, True)"
      using m by (rule boosted [rotated])
  next
    fix pre body post D d
    assume w: "list_all isspace pre" "list_all isspace post"
      and a: "list_all (\<lambda>c. c < 0x80) body" and m: "Direction_member D = Some d"
      and e: "map ascii_upper body = D"
    have "\<not> isspace (hd body) \<and> \<not> isspace (last body)"
      using Direction_member_ends [OF m]
      by (intro ascii_trimmed [OF a e]) simp_all
    then have "strip (pre @ body @ post) = body"
      using w by (simp add: strip_trimmed)
    then have "upper (strip (pre @ body @ post)) = D"
      using e a by (simp add: upper_ascii)
    then show "move_str_to_direction_and_boost (pre @ body @ post) = Inr (d, False)"
      using m by (rule bare [rotated])
  qed
  show ?thesis
    by (intro conjI) (fact c1 c2 c3 c4 c5 c6 c7)+
qed

theorem move_str_to_direction_and_boost_total_witness:
  "move_str_to_direction_and_boost (0xA0 # codes ''up'') = Inr (UP, False) \<and>
   move_str_to_direction_and_boost (codes '' Left:bOOst'' @ [0x2003, 0xA]) = Inr (LEFT, True) \<and>
   upper (strip (codes ''down:boo'' @ [0xFB06])) = codes ''DOWN'' @ codes '':BOOST'' \<and>
   move_str_to_direction_and_boost (codes ''down:boo'' @ [0xFB06]) = Inr (DOWN, True) \<and>
   direction_part (upper (strip (codes ''forward:boost''))) = Inr (codes ''FORWARD'', True) \<and>
   move_str_to_direction_and_boost (codes ''forward:boost'') = Inr (RIGHT, False)"
proof -
  note total = move_str_to_direction_and_boost_total
  have m: "Direction_member (codes ''UP'') = Some UP"
    "Direction_member (codes ''LEFT'') = Some LEFT"
    "Direction_member (codes ''DOWN'') = Some DOWN"
    "Direction_member (codes ''FORWARD'') = None"
    by (simp_all add: Direction_member_def codes_def)
  have w: "list_all isspace [0xA0]" "list_all isspace []" "list_all isspace (codes '' '')"
    "list_all isspace [0x2003, 0xA]"
    by (simp_all add: isspace_def whitespace_codes_def codes_def)
  have b1: "list_all (\<lambda>c. c < 0x80) (codes ''up'')" "map ascii_upper (codes ''up'') = codes ''UP''"
    by (simp_all add: codes_def ascii_upper_def)
  have b2: "list_all (\<lambda>c. c < 0x80) (codes ''Left:bOOst'')"
    "map ascii_upper (codes ''Left:bOOst'') = codes ''LEFT'' @ codes '':BOOST''"
    by (simp_all add: codes_def ascii_upper_def)
  have 1: "move_str_to_direction_and_boost ([0xA0] @ codes ''up'' @ []) = Inr (UP, False)"
    using total [of "[]"] w(1,2) b1 m(1) by blast
  have 2: "move_str_to_direction_and_boost
      (codes '' '' @ codes ''Left:bOOst'' @ [0x2003, 0xA]) = Inr (LEFT, True)"
    using total [of "[]"] w(3,4) b2 m(2) by blast
  have n3: "upper (strip (codes ''down:boo'' @ [0xFB06])) = codes ''DOWN'' @ codes '':BOOST''"
    by (simp add: upper_def upper_char_def ascii_upper_def special_upper_def strip_def
        isspace_def whitespace_codes_def codes_def)
  have 3: "move_str_to_direction_and_boost (codes ''down:boo'' @ [0xFB06]) = Inr (DOWN, True)"
    using total [of "codes ''down:boo'' @ [0xFB06]"] m(3) n3 by blast
  have n4: "direction_part (upper (strip (codes ''forward:boost''))) =
      Inr (codes ''FORWARD'', True)"
    by (simp add: parse_defs)
  have 4: "move_str_to_direction_and_boost (codes ''forward:boost'') = Inr (RIGHT, False)"
    using total [of "codes ''forward:boost''"] m(4) n4 by blast
  have e: "[0xA0] @ codes ''up'' @ [] = 0xA0 # codes ''up''"
    "codes '' '' @ codes ''Left:bOOst'' @ [0x2003, 0xA] = codes '' Left:bOOst'' @ [0x2003, 0xA]"
    by (simp_all add: codes_def)
  show ?thesis
    using 1 2 3 4 n3 n4 unfolding e by simp
qed

end
